theory Spec2Isabelle
  imports Main "HOL-Library.Sublist"
begin

section \<open>The parsed document\<close>

text \<open>
  \<^verbatim>\<open>scrape_products\<close> reads the stored page and hands it to
  \<^verbatim>\<open>BeautifulSoup(content, "html.parser")\<close>. The parser is a library, so the
  model starts from the tree it returns: a tag has a name, the list of its classes (the
  library keeps the \<^verbatim>\<open>class\<close> attribute as a list), its other attributes as a
  dictionary (an association list read with \<open>map_of\<close>) and its contents in document
  order; a content item is a tag again, a piece of text (\<^verbatim>\<open>NavigableString\<close>), or
  a string of one of the classes that \<^verbatim>\<open>.text\<close> leaves out: a \<^verbatim>\<open>Comment\<close>, and
  likewise the body of a \<^verbatim>\<open>script\<close>, \<^verbatim>\<open>style\<close> or \<^verbatim>\<open>template\<close> element, a
  doctype or a declaration, which behave alike everywhere in this program.
  The \<^verbatim>\<open>BeautifulSoup\<close> object itself is a tag (named \<^verbatim>\<open>[document]\<close>).
\<close>

datatype tag =
  Tag (name: string) (classes: "string list") (attrs: "(string \<times> string) list")
      (contents: "node list")
and node = Element tag | NavigableString string | Comment string

text \<open>All tags below a tag, in document order (the tag itself is not among them).\<close>

primrec descendants :: "tag \<Rightarrow> tag list"
  and node_descendants :: "node \<Rightarrow> tag list" where
  "descendants (Tag n cs ats ks) = concat (map node_descendants ks)"
| "node_descendants (Element t) = t # descendants t"
| "node_descendants (NavigableString s) = []"
| "node_descendants (Comment s) = []"

text \<open>
  \<^verbatim>\<open>tag.text\<close>: the strings below the tag whose class is exactly
  \<^verbatim>\<open>NavigableString\<close>, joined in document order; comments and the like are left out.
\<close>

primrec get_text :: "tag \<Rightarrow> string"
  and node_text :: "node \<Rightarrow> string" where
  "get_text (Tag n cs ats ks) = concat (map node_text ks)"
| "node_text (Element t) = get_text t"
| "node_text (NavigableString s) = s"
| "node_text (Comment s) = []"

text \<open>
  \<^verbatim>\<open>tag.find(class_=c)\<close> and \<^verbatim>\<open>tag.find(n)\<close>: the first tag below
  \<open>tag\<close> that carries the class \<open>c\<close>, respectively is named \<open>n\<close>; Python's
  \<^verbatim>\<open>None\<close> when there is none. The classes and names searched for here contain
  no blank, so matching a class is membership in the tag's class list.
\<close>

definition find_by_class :: "string \<Rightarrow> tag \<Rightarrow> tag option" where
  "find_by_class c t = List.find (\<lambda>d. c \<in> set (classes d)) (descendants t)"

definition find_by_name :: "string \<Rightarrow> tag \<Rightarrow> tag option" where
  "find_by_name n t = List.find (\<lambda>d. name d = n) (descendants t)"

text \<open>\<^verbatim>\<open>tag.attrs.get(k)\<close>: the attribute, \<^verbatim>\<open>None\<close> when the tag has none.\<close>

definition attrs_get :: "tag \<Rightarrow> string \<Rightarrow> string option" where
  "attrs_get t k = map_of (attrs t) k"

text \<open>
  \<^verbatim>\<open>tag.children\<close> is an iterator over the contents. An iterator object has neither
  \<^verbatim>\<open>__bool__\<close> nor \<^verbatim>\<open>__len__\<close>, so Python takes it for true whatever it holds.
\<close>

datatype 'a iterator = Iterator "'a list"

definition children :: "tag \<Rightarrow> node iterator" where
  "children t = Iterator (contents t)"

fun truthy_iterator :: "'a iterator \<Rightarrow> bool" where
  "truthy_iterator (Iterator xs) = True"

fun list_of_iterator :: "'a iterator \<Rightarrow> 'a list" where
  "list_of_iterator (Iterator xs) = xs"

text \<open>\<^verbatim>\<open>xs[:n]\<close>: a negative bound counts from the end.\<close>

definition slice_to :: "'a list \<Rightarrow> int \<Rightarrow> 'a list" where
  "slice_to xs n = (if 0 \<le> n then take (nat n) xs else take (length xs - nat (- n)) xs)"


section \<open>Values, exceptions and the world\<close>

datatype exn =
  AttributeError | TypeError | UnboundLocalError | FileNotFoundError | WebDriverException
| IllegalCharacterError | OSError

text \<open>What \<^verbatim>\<open>scrape_products\<close> and \<^verbatim>\<open>scrape\<close> return.\<close>

datatype pyval = PyNone | PyInt int | PyBool bool

fun truthy :: "pyval \<Rightarrow> bool" where
  "truthy PyNone = False"
| "truthy (PyInt i) = (i \<noteq> 0)"
| "truthy (PyBool b) = b"

text \<open>\<^verbatim>\<open>result == 0\<close> (in Python \<^verbatim>\<open>False == 0\<close> holds).\<close>

fun equals_zero :: "pyval \<Rightarrow> bool" where
  "equals_zero PyNone = False"
| "equals_zero (PyInt i) = (i = 0)"
| "equals_zero (PyBool b) = (\<not> b)"

text \<open>
  The dictionary built for one product. \<^verbatim>\<open>Image\<close> comes from
  \<^verbatim>\<open>attrs.get("src")\<close> and can be \<^verbatim>\<open>None\<close>; the other entries are strings.
\<close>

record product_data =
  Name :: string
  Image :: "string option"
  Price :: string
  Rating :: string
  Link :: string

text \<open>
  The effects the claims speak about: the files on disk (the temporary page is stored as
  the tree the parser makes of it) and the calls that remove a file or write a
  spreadsheet, in the order they happen. \<open>Saved\<close> records the call of
  \<^verbatim>\<open>save_to_excel\<close> with its argument, whether or not the call then raises.

  Writing the spreadsheet is done by libraries that can raise (the sheet writer refuses a
  control character in a cell with \<^verbatim>\<open>IllegalCharacterError\<close>, the disk can be full).
  What they raise for a given list of records, if anything, is a part of the world:
  \<open>to_excel\<close>.
\<close>

datatype event = Removed string | Saved "product_data list"

record world =
  files :: "string \<rightharpoonup> tag"
  trace :: "event list"
  to_excel :: "product_data list \<Rightarrow> exn option"

text \<open>The base address: the global \<^verbatim>\<open>url\<close> of the script.\<close>

definition url :: string where
  "url = ''https://www.myntra.com''"

definition products_container_class :: string where
  "products_container_class = ''results-base''"

definition products_name_class :: string where
  "products_name_class = ''product-product''"

definition products_price_class :: string where
  "products_price_class = ''product-discountedPrice''"

definition products_rating_class :: string where
  "products_rating_class = ''product-ratingsContainer''"


section \<open>clean\<close>

text \<open>
  \<^verbatim>\<open>clean(file_path)\<close> removes the file when it exists and only prints otherwise; it
  catches every exception itself.
\<close>

definition clean :: "string \<Rightarrow> world \<Rightarrow> world" where
  "clean file_path w =
     (if files w file_path \<noteq> None
      then w\<lparr>files := (files w)(file_path := None), trace := trace w @ [Removed file_path]\<rparr>
      else w)"


section \<open>save_to_excel\<close>

text \<open>
  The call is recorded with the records it was given, and it raises what the libraries
  raise for them; nothing inside \<^verbatim>\<open>save_to_excel\<close> catches that exception.
  The formatting loop over \<^verbatim>\<open>ws.columns\<close> is modelled on the loaded sheet, a list
  of columns of cells. The records hold text, so a cell holds text or is empty
  (\<^verbatim>\<open>cell.value\<close> is \<^verbatim>\<open>None\<close>).
\<close>

definition save_to_excel :: "product_data list \<Rightarrow> world \<Rightarrow> exn option \<times> world" where
  "save_to_excel products w = (to_excel w products, w\<lparr>trace := trace w @ [Saved products]\<rparr>)"

type_synonym cell = "string option"

text \<open>\<^verbatim>\<open>if cell.value\<close>: \<^verbatim>\<open>None\<close> and the empty string are false.\<close>

fun truthy_cell :: "cell \<Rightarrow> bool" where
  "truthy_cell None = False"
| "truthy_cell (Some s) = (s \<noteq> [])"

text \<open>\<^verbatim>\<open>str(cell.value)\<close>.\<close>

fun str_cell :: "cell \<Rightarrow> string" where
  "str_cell None = ''None''"
| "str_cell (Some s) = s"

text \<open>The inner loop: \<^verbatim>\<open>max_length\<close> over the cells of one column, starting at 0.\<close>

fun max_length_loop :: "cell list \<Rightarrow> nat \<Rightarrow> nat" where
  "max_length_loop [] max_length = max_length"
| "max_length_loop (c # col) max_length =
     max_length_loop col
       (if truthy_cell c then max max_length (length (str_cell c)) else max_length)"

definition column_width :: "cell list \<Rightarrow> nat" where
  "column_width col =
     (let max_length = max_length_loop col 0;
          adjusted_width = max_length + 2
      in min adjusted_width 50)"

text \<open>The outer loop: one width per column, in column order.\<close>

definition column_dimensions :: "cell list list \<Rightarrow> nat list" where
  "column_dimensions columns = map column_width columns"

text \<open>The text a cell shows: nothing for an empty cell.\<close>

fun rendered :: "cell \<Rightarrow> string" where
  "rendered None = []"
| "rendered (Some s) = s"


section \<open>scrape_products\<close>

text \<open>The five local variables of one pass of the loop (lines 138 to 142).\<close>

record product_fields =
  product_name :: string
  product_image :: "string option"
  product_price :: string
  product_rating :: string
  product_link :: "string option"

text \<open>
  A piece of text or a comment among the children has no tag's \<^verbatim>\<open>find\<close>: both are
  Python strings, the name resolves to
  \<^verbatim>\<open>str.find\<close>, which takes no keyword argument, and the first line of the loop body
  raises \<^verbatim>\<open>TypeError\<close>. For a tag, only the rating can raise: a ratings container
  without a \<^verbatim>\<open>span\<close> gives \<^verbatim>\<open>None.text\<close>, an \<^verbatim>\<open>AttributeError\<close>.
\<close>

definition extract_fields :: "node \<Rightarrow> exn + product_fields" where
  "extract_fields product =
     (case product of
        NavigableString s \<Rightarrow> Inl TypeError
      | Comment s \<Rightarrow> Inl TypeError
      | Element t \<Rightarrow>
          let nm = (case find_by_class products_name_class t of
                      Some e \<Rightarrow> get_text e | None \<Rightarrow> []);
              im = (case find_by_name ''picture'' t of
                      Some p \<Rightarrow> (case find_by_name ''img'' p of
                                   Some i \<Rightarrow> attrs_get i ''src''
                                 | None \<Rightarrow> Some [])
                    | None \<Rightarrow> Some []);
              pr = (case find_by_class products_price_class t of
                      Some e \<Rightarrow> get_text e | None \<Rightarrow> [])
          in (case (case find_by_class products_rating_class t of
                      Some r \<Rightarrow> (case find_by_name ''span'' r of
                                   Some s \<Rightarrow> Inr (get_text s)
                                 | None \<Rightarrow> Inl AttributeError)
                    | None \<Rightarrow> Inr []) of
                Inl e \<Rightarrow> Inl e
              | Inr rt \<Rightarrow>
                  Inr \<lparr>product_name = nm, product_image = im, product_price = pr,
                       product_rating = rt,
                       product_link = (case find_by_name ''a'' t of
                                         Some a \<Rightarrow> attrs_get a ''href''
                                       | None \<Rightarrow> Some [])\<rparr>))"

text \<open>The test of line 144; \<^verbatim>\<open>None == ""\<close> is false.\<close>

definition skipped :: "product_fields \<Rightarrow> bool" where
  "skipped f \<longleftrightarrow>
     (product_name f = [] \<and> product_price f = [] \<and> product_link f = Some [])
     \<or> product_link f = Some []"

text \<open>
  Lines 147 to 153. \<^verbatim>\<open>url + '/' + product_link\<close> raises \<^verbatim>\<open>TypeError\<close> when the
  anchor has no \<^verbatim>\<open>href\<close> (the link is \<^verbatim>\<open>None\<close>).
\<close>

definition make_product_data :: "product_fields \<Rightarrow> exn + product_data" where
  "make_product_data f =
     (case product_link f of
        None \<Rightarrow> Inl TypeError
      | Some href \<Rightarrow>
          Inr \<lparr>Name = product_name f, Image = product_image f, Price = product_price f,
               Rating = product_rating f, Link = url @ ''/'' @ href\<rparr>)"

text \<open>One pass of the loop: an exception, \<^verbatim>\<open>continue\<close>, or a record to append.\<close>

definition loop_body :: "node \<Rightarrow> exn + product_data option" where
  "loop_body product =
     (case extract_fields product of
        Inl e \<Rightarrow> Inl e
      | Inr f \<Rightarrow>
          if skipped f then Inr None
          else (case make_product_data f of
                  Inl e \<Rightarrow> Inl e
                | Inr d \<Rightarrow> Inr (Some d)))"

text \<open>
  The loop over \<open>products\<close>, with \<open>scrapped_products\<close> as it stands: the result is the
  exception that stopped the loop, if any, and the list at that moment.
\<close>

fun for_products :: "node list \<Rightarrow> product_data list \<Rightarrow> exn option \<times> product_data list" where
  "for_products [] scrapped_products = (None, scrapped_products)"
| "for_products (product # products) scrapped_products =
     (case loop_body product of
        Inl e \<Rightarrow> (Some e, scrapped_products)
      | Inr None \<Rightarrow> for_products products scrapped_products
      | Inr (Some d) \<Rightarrow> for_products products (scrapped_products @ [d]))"

text \<open>
  How the \<^verbatim>\<open>try\<close> block (lines 121 to 155) ends: by \<^verbatim>\<open>return 0\<close> (after
  the call of \<^verbatim>\<open>clean\<close> of line 127, which \<open>scrape_products\<close> below performs),
  by an exception, or by reaching its end. With an exception comes the local variable
  \<open>scrapped_products\<close>: \<open>None\<close> stands for a variable that was never assigned.
\<close>

datatype try_result =
  Return0
| Raised exn "product_data list option"
| Done "product_data list"

definition try_block :: "tag \<Rightarrow> int \<Rightarrow> try_result" where
  "try_block soup products_scrape =
     (case find_by_class products_container_class soup of
        None \<Rightarrow> Raised AttributeError None
      | Some products_container \<Rightarrow>
          let products = children products_container in
          if \<not> truthy_iterator products then Return0
          else
            (case for_products (slice_to (list_of_iterator products) products_scrape) [] of
               (Some e, scrapped_products) \<Rightarrow> Raised e (Some scrapped_products)
             | (None, scrapped_products) \<Rightarrow> Done scrapped_products))"

text \<open>
  What the whole \<^verbatim>\<open>try\<close> statement does next. The handler of
  \<^verbatim>\<open>AttributeError\<close> reads \<open>scrapped_products\<close>: when the variable is unassigned that
  read raises \<^verbatim>\<open>UnboundLocalError\<close> inside the handler, which no handler of this
  statement catches. Every other exception reaches \<^verbatim>\<open>except Exception\<close>.
\<close>

datatype flow =
  ReturnZero
| ReturnNone
| Propagate exn
| FallThrough "product_data list"

fun handlers :: "try_result \<Rightarrow> flow" where
  "handlers Return0 = ReturnZero"
| "handlers (Done scrapped_products) = FallThrough scrapped_products"
| "handlers (Raised e var) =
     (if e = AttributeError then
        (case var of
           None \<Rightarrow> Propagate UnboundLocalError
         | Some scrapped_products \<Rightarrow>
             if scrapped_products = [] then ReturnNone else FallThrough scrapped_products)
      else ReturnNone)"

text \<open>
  The specification speaks of an extraction with a status and a list of records. In the
  code that is the \<^verbatim>\<open>try\<close> statement of \<^verbatim>\<open>scrape_products\<close>: falling through
  to the export is \<open>Ok\<close> with the records at hand, \<^verbatim>\<open>return 0\<close> is
  \<open>EmptyContainer\<close>, \<^verbatim>\<open>return None\<close> and an escaping exception are
  \<open>ParseFailure\<close>; the last three carry no record.
\<close>

definition extraction :: "tag \<Rightarrow> int \<Rightarrow> flow" where
  "extraction soup products_scrape = handlers (try_block soup products_scrape)"

datatype status = Ok | EmptyContainer | ParseFailure

fun status_of :: "flow \<Rightarrow> status" where
  "status_of (FallThrough rs) = Ok"
| "status_of ReturnZero = EmptyContainer"
| "status_of ReturnNone = ParseFailure"
| "status_of (Propagate e) = ParseFailure"

fun records_of :: "flow \<Rightarrow> product_data list" where
  "records_of (FallThrough rs) = rs"
| "records_of ReturnZero = []"
| "records_of ReturnNone = []"
| "records_of (Propagate e) = []"

text \<open>
  The whole function: read the file, run the \<^verbatim>\<open>try\<close> statement, and on the way
  out either return at once or clean up, export and return \<^verbatim>\<open>True\<close>. The export
  stands outside the \<^verbatim>\<open>try\<close> statement: what it raises leaves the function.
\<close>

definition scrape_products :: "string \<Rightarrow> int \<Rightarrow> world \<Rightarrow> (exn + pyval) \<times> world" where
  "scrape_products file_path products_scrape w =
     (case files w file_path of
        None \<Rightarrow> (Inl FileNotFoundError, w)
      | Some soup \<Rightarrow>
          (case extraction soup products_scrape of
             ReturnZero \<Rightarrow> (Inr (PyInt 0), clean file_path w)
           | ReturnNone \<Rightarrow> (Inr PyNone, w)
           | Propagate e \<Rightarrow> (Inl e, w)
           | FallThrough scrapped_products \<Rightarrow>
               (case save_to_excel scrapped_products (clean file_path w) of
                  (Some e, w') \<Rightarrow> (Inl e, w')
                | (None, w') \<Rightarrow> (Inr (PyBool True), w'))))"


section \<open>scrape and the final message\<close>

text \<open>
  \<^verbatim>\<open>get_html_selenium\<close> drives a browser; its result is an argument of the model:
  the page, or the exception it raised. \<open>file_path\<close> is the fresh name under
  \<^verbatim>\<open>temp_files\<close>. Every exception inside \<^verbatim>\<open>scrape\<close> ends in \<^verbatim>\<open>return None\<close>.
\<close>

definition scrape :: "exn + tag \<Rightarrow> string \<Rightarrow> int \<Rightarrow> world \<Rightarrow> pyval \<times> world" where
  "scrape page file_path products_scrape w =
     (case page of
        Inl err \<Rightarrow> (PyNone, w)
      | Inr html_content \<Rightarrow>
          (case scrape_products file_path products_scrape
                  (w\<lparr>files := (files w)(file_path \<mapsto> html_content)\<rparr>) of
             (Inl err, w') \<Rightarrow> (PyNone, w')
           | (Inr result, w') \<Rightarrow> if \<not> truthy result then (result, w') else (PyBool True, w')))"

text \<open>The three messages at the end of the script (lines 287 to 292).\<close>

datatype outcome = Success | NoProducts | Failure

definition report :: "pyval \<Rightarrow> outcome" where
  "report result =
     (if truthy result then Success else if equals_zero result then NoProducts else Failure)"


section \<open>Observations and sample pages\<close>

text \<open>The records handed to \<^verbatim>\<open>save_to_excel\<close>, one entry per call, in order.\<close>

definition exports :: "world \<Rightarrow> product_data list list" where
  "exports w = concat (map (\<lambda>e. case e of Saved rs \<Rightarrow> [rs] | Removed p \<Rightarrow> []) (trace w))"

text \<open>A child of the container from which one pass of the loop makes a record.\<close>

definition valid_tile :: "node \<Rightarrow> bool" where
  "valid_tile child = (case loop_body child of Inr (Some d) \<Rightarrow> True | _ \<Rightarrow> False)"

text \<open>One pass of the loop over the child ends without an exception.\<close>

definition completes :: "node \<Rightarrow> bool" where
  "completes child = (case loop_body child of Inl e \<Rightarrow> False | Inr r \<Rightarrow> True)"

text \<open>The records of the valid tiles of a list of children, in the order of the list.\<close>

fun records_from :: "node list \<Rightarrow> product_data list" where
  "records_from [] = []"
| "records_from (child # rest) =
     (case loop_body child of
        Inr (Some d) \<Rightarrow> d # records_from rest
      | _ \<Rightarrow> records_from rest)"

text \<open>
  Pages for the concrete checks: a product tile with a name and a link, a tile with a link
  only, a tile without anything, a tile whose ratings container has no \<^verbatim>\<open>span\<close>,
  a page whose results container holds given children, and a page without the container.
\<close>

definition tile :: "string \<Rightarrow> string \<Rightarrow> node" where
  "tile nm href =
     Element (Tag ''li'' [''product-base''] []
       [Element (Tag ''a'' [] [(''href'', href)]
          [Element (Tag ''h3'' [''product-product''] [] [NavigableString nm])])])"

definition bare_tile :: "string \<Rightarrow> node" where
  "bare_tile href =
     Element (Tag ''li'' [] [] [Element (Tag ''a'' [] [(''href'', href)] [])])"

definition empty_tile :: node where
  "empty_tile = Element (Tag ''li'' [] [] [])"

definition broken_tile :: node where
  "broken_tile =
     Element (Tag ''li'' [''product-base''] []
       [Element (Tag ''div'' [''product-ratingsContainer''] [] [])])"

definition page_of :: "node list \<Rightarrow> tag" where
  "page_of ks = Tag ''[document]'' [] []
     [Element (Tag ''div'' [''results-base''] [] ks)]"

definition page_without_container :: tag where
  "page_without_container = Tag ''[document]'' [] []
     [Element (Tag ''div'' [''index-infoBig''] [] [NavigableString ''no results''])]"

definition record_of :: "string \<Rightarrow> string \<Rightarrow> product_data" where
  "record_of nm href =
     \<lparr>Name = nm, Image = Some [], Price = [], Rating = [], Link = url @ ''/'' @ href\<rparr>"

text \<open>An empty disk, nothing done yet, and libraries that write every spreadsheet.\<close>

text \<open>A tile without a link in front of two valid tiles.\<close>

definition gap_then_two :: "node list" where
  "gap_then_two = [empty_tile, tile ''A'' ''a'', tile ''B'' ''b'']"

definition no_world :: world where
  "no_world = \<lparr>files = Map.empty, trace = [], to_excel = (\<lambda>products. None)\<rparr>"

definition temp_path :: string where
  "temp_path = ''temp_files/page.html''"

text \<open>Four tiles followed by the tile whose rating cannot be read, and the four records.\<close>

definition five_children :: "node list" where
  "five_children = [tile ''A'' ''a'', tile ''B'' ''b'', tile ''C'' ''c'', tile ''D'' ''d'', broken_tile]"

text \<open>The same four tiles followed by a piece of text.\<close>

definition four_then_text :: "node list" where
  "four_then_text =
     [tile ''A'' ''a'', tile ''B'' ''b'', tile ''C'' ''c'', tile ''D'' ''d'', NavigableString ''sale'']"

definition four_records :: "product_data list" where
  "four_records = [record_of ''A'' ''a'', record_of ''B'' ''b'', record_of ''C'' ''c'', record_of ''D'' ''d'']"


section \<open>Column widths\<close>

lemma truthy_cell_rendered: "truthy_cell c \<Longrightarrow> str_cell c = rendered c"
  by (cases c) auto

lemma falsy_cell_rendered: "\<not> truthy_cell c \<Longrightarrow> rendered c = []"
  by (cases c) auto

text \<open>The inner loop computes a maximum: of its start value and the cells' text lengths.\<close>

lemma max_length_loop_Max:
  "max_length_loop col m = Max (insert m ((\<lambda>c. length (rendered c)) ` set col))"
proof (induction col arbitrary: m)
  case Nil
  then show ?case by simp
next
  case (Cons c col)
  let ?S = "(\<lambda>c. length (rendered c)) ` set col"
  have fin: "finite ?S" by simp
  show ?case
  proof (cases "truthy_cell c")
    case True
    then have "max_length_loop (c # col) m = Max (insert (max m (length (rendered c))) ?S)"
      by (simp add: Cons.IH truthy_cell_rendered)
    also have "\<dots> = Max (insert m (insert (length (rendered c)) ?S))"
      using fin by (cases "?S = {}") (simp_all add: max.assoc)
    finally show ?thesis by simp
  next
    case False
    then have "max_length_loop (c # col) m = Max (insert m ?S)"
      by (simp add: Cons.IH)
    also have "\<dots> = Max (insert m (insert 0 ?S))"
      using fin by (cases "?S = {}") simp_all
    finally show ?thesis using False by (simp add: falsy_cell_rendered)
  qed
qed

lemma column_width_Max:
  assumes "col \<noteq> []"
  shows "column_width col = min (Max ((\<lambda>c. length (rendered c)) ` set col) + 2) 50"
proof -
  have "Max (insert 0 ((\<lambda>c. length (rendered c)) ` set col))
        = Max ((\<lambda>c. length (rendered c)) ` set col)"
    using assms by simp
  then show ?thesis
    by (simp add: column_width_def max_length_loop_Max Let_def)
qed

text \<open>
  C9. The formatting loop gives every column of the sheet one width, and for a column
  with cells (every written column has its header) that width is the largest length of
  the text shown by a cell of the column, header included, plus 2, and at most 50.
\<close>

theorem column_widths:
  "length (column_dimensions columns) = length columns \<and>
   (\<forall>i<length columns. columns ! i \<noteq> [] \<longrightarrow>
      column_dimensions columns ! i
        = min (Max ((\<lambda>c. length (rendered c)) ` set (columns ! i)) + 2) 50)"
  by (simp add: column_dimensions_def column_width_Max)

theorem column_widths_witness:
  "(1::nat) < length [[Some ''Name'', Some ''Blue cotton shirt'', None],
                      [Some ''Link'', Some (replicate 60 CHR ''x''), Some []]]
   \<and> [[Some ''Name'', Some ''Blue cotton shirt'', None],
       [Some ''Link'', Some (replicate 60 CHR ''x''), Some []]] ! 1 \<noteq> []
   \<and> column_dimensions [[Some ''Name'', Some ''Blue cotton shirt'', None],
                          [Some ''Link'', Some (replicate 60 CHR ''x''), Some []]] = [19, 50]"
  using column_widths [of "[[Some ''Name'', Some ''Blue cotton shirt'', None],
                            [Some ''Link'', Some (replicate 60 CHR ''x''), Some []]]"]
  by (simp add: column_dimensions_def column_width_def Let_def)

section \<open>The loop and the try statement\<close>

text \<open>The list at hand is only extended: the loop run from any list is the loop run from
  the empty list, with the result put behind.\<close>

lemma for_products_acc:
  "for_products ps acc = (fst (for_products ps []), acc @ snd (for_products ps []))"
proof (induction ps arbitrary: acc)
  case Nil
  then show ?case by simp
next
  case (Cons p ps)
  show ?case
  proof (cases "loop_body p")
    case (Inl e)
    then show ?thesis by simp
  next
    case (Inr res)
    show ?thesis
    proof (cases res)
      case None
      with Inr Cons.IH [of acc] show ?thesis by simp
    next
      case (Some d)
      with Inr Cons.IH [of "acc @ [d]"] Cons.IH [of "[d]"] show ?thesis by simp
    qed
  qed
qed

lemma for_products_append:
  "for_products (xs @ ys) acc =
     (case for_products xs acc of
        (None, acc') \<Rightarrow> for_products ys acc'
      | (Some e, acc') \<Rightarrow> (Some e, acc'))"
  by (induction xs arbitrary: acc) (auto split: sum.splits option.splits)

lemma for_products_length: "length (snd (for_products ps acc)) \<le> length acc + length ps"
proof (induction ps arbitrary: acc)
  case Nil
  then show ?case by simp
next
  case (Cons p ps)
  show ?case
    using Cons.IH [of acc] Cons.IH [of "acc @ [the (projr (loop_body p))]"]
    by (auto split: sum.splits option.splits)
qed

lemma for_products_subseq:
  "\<exists>cs. subseq cs ps \<and>
        list_all2 (\<lambda>child r. loop_body child = Inr (Some r)) cs (snd (for_products ps []))"
proof (induction ps)
  case Nil
  then show ?case by simp
next
  case (Cons p ps)
  then obtain cs where cs: "subseq cs ps"
    "list_all2 (\<lambda>child r. loop_body child = Inr (Some r)) cs (snd (for_products ps []))"
    by blast
  show ?case
  proof (cases "loop_body p")
    case (Inl e)
    then have "snd (for_products (p # ps) []) = []" by simp
    then show ?thesis by (intro exI [of _ "[]"]) simp
  next
    case (Inr res)
    show ?thesis
    proof (cases res)
      case None
      with Inr have "snd (for_products (p # ps) []) = snd (for_products ps [])" by simp
      moreover have "subseq cs (p # ps)" using cs(1) by (rule list_emb_Cons)
      ultimately show ?thesis using cs(2) by (intro exI [of _ cs]) simp
    next
      case (Some d)
      with Inr have "snd (for_products (p # ps) []) = d # snd (for_products ps [])"
        using for_products_acc [of ps "[d]"] by simp
      with cs Inr Some show ?thesis by (intro exI [of _ "p # cs"]) simp
    qed
  qed
qed

lemma for_products_member:
  assumes "fst (for_products ps acc) = None" and "p \<in> set ps" and "loop_body p = Inr (Some d)"
  shows "d \<in> set (snd (for_products ps acc))"
  using assms
proof (induction ps arbitrary: acc)
  case Nil
  then show ?case by simp
next
  case (Cons q ps)
  have acc_kept: "set acc' \<subseteq> set (snd (for_products ps acc'))" for acc'
    using for_products_acc [of ps acc'] by (metis set_append snd_conv sup_ge1)
  show ?case
  proof (cases "loop_body q")
    case (Inl e)
    with Cons.prems show ?thesis by simp
  next
    case (Inr res)
    show ?thesis
    proof (cases "p = q")
      case True
      with Cons.prems have "for_products (q # ps) acc = for_products ps (acc @ [d])" by simp
      with acc_kept [of "acc @ [d]"] show ?thesis by auto
    next
      case False
      with Cons.prems have "p \<in> set ps" by simp
      with Cons.prems Cons.IH Inr show ?thesis by (cases res) auto
    qed
  qed
qed

text \<open>The \<^verbatim>\<open>try\<close> statement with and without the container.\<close>

lemma extraction_found:
  assumes "find_by_class products_container_class soup = Some c"
  shows "extraction soup n =
           handlers (case for_products (slice_to (contents c) n) [] of
                       (Some e, scrapped) \<Rightarrow> Raised e (Some scrapped)
                     | (None, scrapped) \<Rightarrow> Done scrapped)"
  using assms by (simp add: extraction_def try_block_def children_def)

lemma extraction_absent:
  assumes "find_by_class products_container_class soup = None"
  shows "extraction soup n = Propagate UnboundLocalError"
  using assms by (simp add: extraction_def try_block_def)

lemma records_of_extraction:
  assumes "find_by_class products_container_class soup = Some c"
  shows "records_of (extraction soup n) = [] \<or>
         records_of (extraction soup n) = snd (for_products (slice_to (contents c) n) [])"
  by (auto simp: extraction_found [OF assms] split: prod.splits option.splits)

lemma extraction_FallThrough:
  assumes "extraction soup n = FallThrough rs"
  shows "\<exists>c. find_by_class products_container_class soup = Some c \<and>
             rs = snd (for_products (slice_to (contents c) n) [])"
proof (cases "find_by_class products_container_class soup")
  case None
  with assms show ?thesis by (simp add: extraction_absent)
next
  case (Some c)
  with assms show ?thesis
    by (auto simp: extraction_found [OF Some] split: prod.splits option.splits if_splits)
qed

lemma for_products_origin:
  assumes "r \<in> set (snd (for_products ps []))"
  shows "\<exists>p\<in>set ps. loop_body p = Inr (Some r)"
proof -
  obtain cs where cs: "subseq cs ps"
    "list_all2 (\<lambda>child r. loop_body child = Inr (Some r)) cs (snd (for_products ps []))"
    using for_products_subseq by blast
  from assms obtain i where i: "i < length (snd (for_products ps []))"
    "snd (for_products ps []) ! i = r"
    by (auto simp: in_set_conv_nth)
  with cs(2) have "i < length cs" "loop_body (cs ! i) = Inr (Some r)"
    by (auto simp: list_all2_conv_all_nth)
  moreover from this cs(1) have "cs ! i \<in> set ps"
    using list_emb_set [of "(=)" cs ps "cs ! i"] by auto
  ultimately show ?thesis by blast
qed


lemma flow_records:
  assumes "r \<in> set (records_of fl)"
  shows "\<exists>rs. fl = FallThrough rs \<and> r \<in> set rs"
  using assms by (cases fl) simp_all





section \<open>Effects of one run\<close>

lemma scrape_page:
  "scrape (Inr soup) fp n w =
     (case extraction soup n of
        ReturnZero \<Rightarrow> (PyInt 0, clean fp (w\<lparr>files := (files w)(fp \<mapsto> soup)\<rparr>))
      | ReturnNone \<Rightarrow> (PyNone, w\<lparr>files := (files w)(fp \<mapsto> soup)\<rparr>)
      | Propagate e \<Rightarrow> (PyNone, w\<lparr>files := (files w)(fp \<mapsto> soup)\<rparr>)
      | FallThrough rs \<Rightarrow>
          (if to_excel w rs = None then PyBool True else PyNone,
           snd (save_to_excel rs (clean fp (w\<lparr>files := (files w)(fp \<mapsto> soup)\<rparr>)))))"
  by (auto simp: scrape_def scrape_products_def save_to_excel_def clean_def
      split: flow.splits option.splits)

lemma exports_simps:
  "exports (w\<lparr>files := fs\<rparr>) = exports w"
  "exports (clean fp w) = exports w"
  "exports (snd (save_to_excel rs w)) = exports w @ [rs]"
  by (simp_all add: exports_def clean_def save_to_excel_def)


section \<open>A page without the results container\<close>

lemma page_without_container_find:
  "find_by_class products_container_class page_without_container = None"
  by code_simp


text \<open>
  C1 (amended). When the page has no element of the container class, the lookup gives
  \<^verbatim>\<open>None\<close> and \<^verbatim>\<open>.children\<close> raises \<^verbatim>\<open>AttributeError\<close>: the extraction
  ends as a failure with no record, \<^verbatim>\<open>scrape\<close> returns \<^verbatim>\<open>None\<close>, the final
  message is the failure message, and \<^verbatim>\<open>save_to_excel\<close> is not called.
\<close>

theorem container_absent_fails:
  assumes "find_by_class products_container_class soup = None"
  shows "status_of (extraction soup n) = ParseFailure \<and>
         records_of (extraction soup n) = [] \<and>
         report (fst (scrape (Inr soup) fp n w)) = Failure \<and>
         exports (snd (scrape (Inr soup) fp n w)) = exports w"
  by (simp add: extraction_absent [OF assms] scrape_page report_def exports_simps)



theorem container_absent_fails_witness:
  "find_by_class products_container_class page_without_container = None \<and>
   status_of (extraction page_without_container 10) = ParseFailure \<and>
   records_of (extraction page_without_container 10) = [] \<and>
   report (fst (scrape (Inr page_without_container) temp_path 10 no_world)) = Failure \<and>
   exports (snd (scrape (Inr page_without_container) temp_path 10 no_world)) = []"
  using container_absent_fails [OF page_without_container_find, of 10 temp_path no_world]
  by (simp add: page_without_container_find exports_def no_world_def)



text \<open>
  The claim as written, that such a page ends as \<open>EmptyContainer\<close> and
  \<open>NoProducts\<close>, fails on the sample page without the container.
\<close>

theorem container_absent_counterexample:
  "find_by_class products_container_class page_without_container = None \<and>
   status_of (extraction page_without_container 10) \<noteq> EmptyContainer \<and>
   report (fst (scrape (Inr page_without_container) temp_path 10 no_world)) \<noteq> NoProducts"
  by (simp add: page_without_container_find extraction_absent scrape_page report_def)



section \<open>The exclusion test\<close>






section \<open>An attribute error in the middle of the scan\<close>

lemma for_products_stopped:
  assumes "for_products before [] = (None, acc)" and "loop_body bad = Inl e"
  shows "for_products (before @ bad # rest) [] = (Some e, acc)"
  using assms by (simp add: for_products_append)

lemma scrape_FallThrough:
  assumes "extraction soup n = FallThrough rs"
  shows "report (fst (scrape (Inr soup) fp n w))
           = (if to_excel w rs = None then Success else Failure)"
    and "exports (snd (scrape (Inr soup) fp n w)) = exports w @ [rs]"
  using assms by (simp_all add: scrape_page report_def exports_simps)

lemma scrape_ReturnNone:
  assumes "extraction soup n = ReturnNone"
  shows "report (fst (scrape (Inr soup) fp n w)) = Failure"
    and "exports (snd (scrape (Inr soup) fp n w)) = exports w"
  using assms by (simp_all add: scrape_page report_def exports_simps)


lemma export_failure_reported:
  assumes "extraction soup n = FallThrough rs" and "to_excel w rs = Some e"
  shows "report (fst (scrape (Inr soup) fp n w)) = Failure"
  using assms by (simp add: scrape_FallThrough)

text \<open>
  C3 (amended). Let the children taken from the container be \<open>before\<close>, then \<open>bad\<close>,
  then \<open>rest\<close>, let the loop over \<open>before\<close> end without an exception with the records
  \<open>acc\<close>, and let the pass over \<open>bad\<close> raise the exception \<open>e\<close>. When \<open>e\<close> is
  \<^verbatim>\<open>AttributeError\<close> (a ratings container without a \<^verbatim>\<open>span\<close>), the first handler
  applies: with no record so far the extraction fails and the run is reported as a
  failure without an export; otherwise the extraction hands on exactly \<open>acc\<close>, which is
  exported once, and the run is reported as a success when the export does not raise.
  When \<open>e\<close> is any other exception (the \<^verbatim>\<open>TypeError\<close> of a piece of text among the
  children or of an anchor without \<^verbatim>\<open>href\<close>), the second handler applies: the
  extraction fails with no record whatever was collected, nothing is exported and the run
  is reported as a failure.
\<close>

theorem partial_failure:
  assumes "find_by_class products_container_class soup = Some container"
    and "slice_to (contents container) n = before @ bad # rest"
    and "for_products before [] = (None, acc)"
    and "loop_body bad = Inl e"
  shows "extraction soup n
           = (if e = AttributeError \<and> acc \<noteq> [] then FallThrough acc else ReturnNone) \<and>
         status_of (extraction soup n)
           = (if e = AttributeError \<and> acc \<noteq> [] then Ok else ParseFailure) \<and>
         records_of (extraction soup n) = (if e = AttributeError then acc else []) \<and>
         report (fst (scrape (Inr soup) fp n w))
           = (if e = AttributeError \<and> acc \<noteq> [] \<and> to_excel w acc = None
              then Success else Failure) \<and>
         exports (snd (scrape (Inr soup) fp n w))
           = (if e = AttributeError \<and> acc \<noteq> [] then exports w @ [acc] else exports w)"
proof -
  have "for_products (slice_to (contents container) n) [] = (Some e, acc)"
    using assms(2) for_products_stopped [OF assms(3,4)] by simp
  then have ex: "extraction soup n
      = (if e = AttributeError \<and> acc \<noteq> [] then FallThrough acc else ReturnNone)"
    by (simp add: extraction_found [OF assms(1)])
  show ?thesis
  proof (cases "e = AttributeError \<and> acc \<noteq> []")
    case True
    with ex have "extraction soup n = FallThrough acc" by simp
    with True show ?thesis by (simp add: scrape_FallThrough)
  next
    case False
    with ex have "extraction soup n = ReturnNone" by simp
    with False show ?thesis by (auto simp: scrape_ReturnNone)
  qed
qed

text \<open>
  The scenario of the claim: five children, the fifth has a ratings container without a
  \<^verbatim>\<open>span\<close> and raises \<^verbatim>\<open>AttributeError\<close> after four records.
\<close>

lemma five_children_find:
  "find_by_class products_container_class (page_of five_children)
     = Some (Tag ''div'' [''results-base''] [] five_children)"
  by code_simp

lemma five_children_slice:
  "slice_to (contents (Tag ''div'' [''results-base''] [] five_children)) 5
     = [tile ''A'' ''a'', tile ''B'' ''b'', tile ''C'' ''c'', tile ''D'' ''d''] @ broken_tile # []"
  by code_simp

lemma four_tiles_loop:
  "for_products [tile ''A'' ''a'', tile ''B'' ''b'', tile ''C'' ''c'', tile ''D'' ''d''] []
     = (None, four_records)"
  by code_simp

lemma broken_tile_raises: "loop_body broken_tile = Inl AttributeError"
  by code_simp

lemma four_records_written: "to_excel no_world four_records = None"
  by (simp add: no_world_def)

theorem partial_failure_witness:
  "find_by_class products_container_class (page_of five_children)
     = Some (Tag ''div'' [''results-base''] [] five_children) \<and>
   slice_to (contents (Tag ''div'' [''results-base''] [] five_children)) 5
     = [tile ''A'' ''a'', tile ''B'' ''b'', tile ''C'' ''c'', tile ''D'' ''d''] @ broken_tile # [] \<and>
   for_products [tile ''A'' ''a'', tile ''B'' ''b'', tile ''C'' ''c'', tile ''D'' ''d''] []
     = (None, four_records) \<and>
   loop_body broken_tile = Inl AttributeError \<and>
   length four_records = 4 \<and>
   to_excel no_world four_records = None \<and>
   extraction (page_of five_children) 5 = FallThrough four_records \<and>
   status_of (extraction (page_of five_children) 5) = Ok \<and>
   report (fst (scrape (Inr (page_of five_children)) temp_path 5 no_world)) = Success \<and>
   exports (snd (scrape (Inr (page_of five_children)) temp_path 5 no_world)) = [four_records]"
proof -
  have ne: "four_records \<noteq> []" and len: "length four_records = 4"
    by (simp_all add: four_records_def)
  have ex0: "exports no_world = []" by (simp add: exports_def no_world_def)
  from partial_failure [OF five_children_find five_children_slice four_tiles_loop
      broken_tile_raises, of temp_path no_world]
  have run: "extraction (page_of five_children) 5 = FallThrough four_records \<and>
     status_of (extraction (page_of five_children) 5) = Ok \<and>
     report (fst (scrape (Inr (page_of five_children)) temp_path 5 no_world)) = Success \<and>
     exports (snd (scrape (Inr (page_of five_children)) temp_path 5 no_world)) = [four_records]"
    using ne ex0 four_records_written by simp
  show ?thesis
    using five_children_find five_children_slice four_tiles_loop broken_tile_raises len
      four_records_written run
    by blast
qed

text \<open>
  The claim as written, for every error of a child, fails when the fifth child is a piece
  of text: the four records are dropped and the run is reported as a failure.
\<close>

lemma four_then_text_find:
  "find_by_class products_container_class (page_of four_then_text)
     = Some (Tag ''div'' [''results-base''] [] four_then_text)"
  by code_simp

lemma four_then_text_slice:
  "slice_to (contents (Tag ''div'' [''results-base''] [] four_then_text)) 5
     = [tile ''A'' ''a'', tile ''B'' ''b'', tile ''C'' ''c'', tile ''D'' ''d'']
       @ NavigableString ''sale'' # []"
  by code_simp

lemma text_child_raises: "extract_fields (NavigableString ''sale'') = Inl TypeError"
  by code_simp

lemma four_then_text_extraction: "extraction (page_of four_then_text) 5 = ReturnNone"
  by code_simp

theorem partial_failure_counterexample:
  "find_by_class products_container_class (page_of four_then_text)
     = Some (Tag ''div'' [''results-base''] [] four_then_text) \<and>
   slice_to (contents (Tag ''div'' [''results-base''] [] four_then_text)) 5
     = [tile ''A'' ''a'', tile ''B'' ''b'', tile ''C'' ''c'', tile ''D'' ''d'']
       @ NavigableString ''sale'' # [] \<and>
   for_products [tile ''A'' ''a'', tile ''B'' ''b'', tile ''C'' ''c'', tile ''D'' ''d''] []
     = (None, four_records) \<and>
   length four_records = 4 \<and>
   extract_fields (NavigableString ''sale'') = Inl TypeError \<and>
   status_of (extraction (page_of four_then_text) 5) = ParseFailure \<and>
   records_of (extraction (page_of four_then_text) 5) = [] \<and>
   report (fst (scrape (Inr (page_of four_then_text)) temp_path 5 no_world)) = Failure \<and>
   exports (snd (scrape (Inr (page_of four_then_text)) temp_path 5 no_world)) = []"
proof -
  have len: "length four_records = 4" by (simp add: four_records_def)
  have ex0: "exports no_world = []" by (simp add: exports_def no_world_def)
  have run: "status_of (extraction (page_of four_then_text) 5) = ParseFailure \<and>
     records_of (extraction (page_of four_then_text) 5) = [] \<and>
     report (fst (scrape (Inr (page_of four_then_text)) temp_path 5 no_world)) = Failure \<and>
     exports (snd (scrape (Inr (page_of four_then_text)) temp_path 5 no_world)) = []"
    using ex0 by (simp add: four_then_text_extraction scrape_ReturnNone)
  show ?thesis
    using four_then_text_find four_then_text_slice four_tiles_loop len text_child_raises run
    by blast
qed

text \<open>
  Stated on the loop as a whole: any exception other than \<^verbatim>\<open>AttributeError\<close> that
  stops it reaches \<^verbatim>\<open>except Exception\<close>, and the function returns \<^verbatim>\<open>None\<close>.
\<close>

lemma other_exception_fatal:
  assumes "find_by_class products_container_class soup = Some container"
    and "for_products (slice_to (contents container) n) [] = (Some e, acc)"
    and "e \<noteq> AttributeError"
  shows "extraction soup n = ReturnNone"
  using assms(2,3) by (simp add: extraction_found [OF assms(1)])


section \<open>Count and order of the records\<close>

lemma slice_to_length: "0 \<le> n \<Longrightarrow> length (slice_to xs n) \<le> nat n"
  by (simp add: slice_to_def)

lemma slice_to_subseq: "subseq (slice_to xs n) xs"
proof -
  have "prefix (take k xs) xs" for k by (rule take_is_prefix)
  then show ?thesis by (auto simp: slice_to_def)
qed

text \<open>
  C6. For a positive count the extraction hands on at most that many records, and the
  records stand in the order of the children they come from: they are made, one by one, of
  a subsequence of the container's children.
\<close>

theorem at_most_max_in_order:
  assumes "0 < n"
  shows "length (records_of (extraction soup n)) \<le> nat n \<and>
         (\<forall>c. find_by_class products_container_class soup = Some c \<longrightarrow>
            (\<exists>cs. subseq cs (contents c) \<and>
                  list_all2 (\<lambda>child r. loop_body child = Inr (Some r)) cs
                    (records_of (extraction soup n))))"
proof (cases "find_by_class products_container_class soup")
  case None
  then show ?thesis by (simp add: extraction_absent)
next
  case (Some c)
  let ?ps = "slice_to (contents c) n"
  from records_of_extraction [OF Some, of n]
  consider (empty) "records_of (extraction soup n) = []"
    | (all) "records_of (extraction soup n) = snd (for_products ?ps [])"
    by blast
  then show ?thesis
  proof cases
    case empty
    have "subseq [] (contents c)" by simp
    with empty Some show ?thesis by (intro conjI allI impI exI [of _ "[]"]) simp_all
  next
    case all
    have "length (snd (for_products ?ps [])) \<le> length ?ps"
      using for_products_length [of ?ps "[]"] by simp
    also have "\<dots> \<le> nat n" using assms by (simp add: slice_to_length)
    finally have len: "length (records_of (extraction soup n)) \<le> nat n"
      using all by simp
    obtain cs where cs: "subseq cs ?ps"
      "list_all2 (\<lambda>child r. loop_body child = Inr (Some r)) cs (snd (for_products ?ps []))"
      using for_products_subseq [of ?ps] by (elim exE conjE)
    from cs(1) slice_to_subseq [of "contents c" n] have "subseq cs (contents c)"
      by (rule subseq_order.trans)
    with cs(2) all len Some show ?thesis
      by (intro conjI allI impI exI [of _ cs]) simp_all
  qed
qed

lemma three_tiles_find:
  "find_by_class products_container_class
      (page_of [tile ''A'' ''a'', empty_tile, tile ''B'' ''b'', tile ''C'' ''c''])
     = Some (Tag ''div'' [''results-base''] []
               [tile ''A'' ''a'', empty_tile, tile ''B'' ''b'', tile ''C'' ''c''])"
  by code_simp

lemma three_tiles_records:
  "records_of (extraction (page_of [tile ''A'' ''a'', empty_tile, tile ''B'' ''b'', tile ''C'' ''c'']) 3)
     = [record_of ''A'' ''a'', record_of ''B'' ''b'']"
  by code_simp

theorem at_most_max_in_order_witness:
  "(0::int) < 3 \<and>
   records_of (extraction (page_of [tile ''A'' ''a'', empty_tile, tile ''B'' ''b'', tile ''C'' ''c'']) 3)
     = [record_of ''A'' ''a'', record_of ''B'' ''b''] \<and>
   length [record_of ''A'' ''a'', record_of ''B'' ''b''] \<le> nat 3 \<and>
   (\<exists>cs. subseq cs [tile ''A'' ''a'', empty_tile, tile ''B'' ''b'', tile ''C'' ''c''] \<and>
         list_all2 (\<lambda>child r. loop_body child = Inr (Some r)) cs
           [record_of ''A'' ''a'', record_of ''B'' ''b''])"
proof -
  have pos: "(0::int) < 3" by simp
  from at_most_max_in_order [OF pos,
      of "page_of [tile ''A'' ''a'', empty_tile, tile ''B'' ''b'', tile ''C'' ''c'']"]
  show ?thesis
    by (simp add: three_tiles_find three_tiles_records)
qed

section \<open>A tile with a link only\<close>

lemma extract_fields_bare:
  assumes "find_by_class products_name_class t = None"
    and "find_by_name ''picture'' t = None \<or>
         (\<exists>p. find_by_name ''picture'' t = Some p \<and> find_by_name ''img'' p = None)"
    and "find_by_class products_price_class t = None"
    and "find_by_class products_rating_class t = None"
    and "find_by_name ''a'' t = Some a"
    and "attrs_get a ''href'' = Some href"
  shows "extract_fields (Element t) =
           Inr \<lparr>product_name = [], product_image = Some [], product_price = [],
                product_rating = [], product_link = Some href\<rparr>"
proof -
  have im: "(case find_by_name ''picture'' t of
               Some p \<Rightarrow> (case find_by_name ''img'' p of
                            Some i \<Rightarrow> attrs_get i ''src''
                          | None \<Rightarrow> Some [])
             | None \<Rightarrow> Some []) = Some []"
    using assms(2) by (elim disjE exE conjE) simp_all
  show ?thesis
    unfolding extract_fields_def
    by (simp only: node.case assms(1,3,4,5,6) im option.case sum.case Let_def)
qed

text \<open>
  C7. A child without name, picture (or image inside it), price and ratings element, whose
  first anchor has a non-empty \<^verbatim>\<open>href\<close>, makes a record whose name, image, price and
  rating are the empty string: no exception is raised, the loop appends the record and goes
  on, and when the scan of the children taken ends without an exception the extraction
  is \<open>Ok\<close> and hands the record on.
\<close>

theorem link_only_tile:
  assumes "find_by_class products_name_class t = None"
    and "find_by_name ''picture'' t = None \<or>
         (\<exists>p. find_by_name ''picture'' t = Some p \<and> find_by_name ''img'' p = None)"
    and "find_by_class products_price_class t = None"
    and "find_by_class products_rating_class t = None"
    and "find_by_name ''a'' t = Some a"
    and "attrs_get a ''href'' = Some href"
    and "href \<noteq> []"
  shows "loop_body (Element t) = Inr (Some (record_of [] href)) \<and>
         Name (record_of [] href) = [] \<and> Image (record_of [] href) = Some [] \<and>
         Price (record_of [] href) = [] \<and> Rating (record_of [] href) = [] \<and>
         for_products (Element t # rest) acc = for_products rest (acc @ [record_of [] href]) \<and>
         (find_by_class products_container_class soup = Some c \<and>
          Element t \<in> set (slice_to (contents c) n) \<and>
          fst (for_products (slice_to (contents c) n) []) = None \<longrightarrow>
            status_of (extraction soup n) = Ok \<and>
            record_of [] href \<in> set (records_of (extraction soup n)))"
proof -
  have f: "extract_fields (Element t) =
           Inr \<lparr>product_name = [], product_image = Some [], product_price = [],
                product_rating = [], product_link = Some href\<rparr>"
    using assms(1-6) by (rule extract_fields_bare)
  have lb: "loop_body (Element t) = Inr (Some (record_of [] href))"
    using assms(7) by (simp add: loop_body_def f skipped_def make_product_data_def record_of_def)
  have step: "for_products (Element t # rest) acc = for_products rest (acc @ [record_of [] href])"
    by (simp add: lb)
  have whole: "status_of (extraction soup n) = Ok \<and>
            record_of [] href \<in> set (records_of (extraction soup n))"
    if c: "find_by_class products_container_class soup = Some c"
      and m: "Element t \<in> set (slice_to (contents c) n)"
      and ok: "fst (for_products (slice_to (contents c) n) []) = None"
  proof -
    obtain e rs where run: "for_products (slice_to (contents c) n) [] = (e, rs)"
      by (cases "for_products (slice_to (contents c) n) []")
    with ok have "e = None" by simp
    with run have "extraction soup n = FallThrough (snd (for_products (slice_to (contents c) n) []))"
      by (simp add: extraction_found [OF c])
    with for_products_member [OF ok m lb] show ?thesis by simp
  qed
  from lb step whole show ?thesis by (simp add: record_of_def)
qed

lemma bare_tile_facts:
  "find_by_class products_name_class (Tag ''li'' [] [] [Element (Tag ''a'' [] [(''href'', ''shirts/7'')] [])]) = None"
  "find_by_name ''picture'' (Tag ''li'' [] [] [Element (Tag ''a'' [] [(''href'', ''shirts/7'')] [])]) = None"
  "find_by_class products_price_class (Tag ''li'' [] [] [Element (Tag ''a'' [] [(''href'', ''shirts/7'')] [])]) = None"
  "find_by_class products_rating_class (Tag ''li'' [] [] [Element (Tag ''a'' [] [(''href'', ''shirts/7'')] [])]) = None"
  "find_by_name ''a'' (Tag ''li'' [] [] [Element (Tag ''a'' [] [(''href'', ''shirts/7'')] [])])
     = Some (Tag ''a'' [] [(''href'', ''shirts/7'')] [])"
  "attrs_get (Tag ''a'' [] [(''href'', ''shirts/7'')] []) ''href'' = Some ''shirts/7''"
  by code_simp+

lemma bare_tile_page:
  "find_by_class products_container_class (page_of [bare_tile ''shirts/7''])
     = Some (Tag ''div'' [''results-base''] [] [bare_tile ''shirts/7''])"
  "fst (for_products (slice_to (contents (Tag ''div'' [''results-base''] [] [bare_tile ''shirts/7''])) 10) []) = None"
  by code_simp+

theorem link_only_tile_witness:
  "find_by_class products_name_class (Tag ''li'' [] [] [Element (Tag ''a'' [] [(''href'', ''shirts/7'')] [])]) = None \<and>
   find_by_name ''picture'' (Tag ''li'' [] [] [Element (Tag ''a'' [] [(''href'', ''shirts/7'')] [])]) = None \<and>
   find_by_class products_price_class (Tag ''li'' [] [] [Element (Tag ''a'' [] [(''href'', ''shirts/7'')] [])]) = None \<and>
   find_by_class products_rating_class (Tag ''li'' [] [] [Element (Tag ''a'' [] [(''href'', ''shirts/7'')] [])]) = None \<and>
   find_by_name ''a'' (Tag ''li'' [] [] [Element (Tag ''a'' [] [(''href'', ''shirts/7'')] [])])
     = Some (Tag ''a'' [] [(''href'', ''shirts/7'')] []) \<and>
   attrs_get (Tag ''a'' [] [(''href'', ''shirts/7'')] []) ''href'' = Some ''shirts/7'' \<and>
   ''shirts/7'' \<noteq> [] \<and>
   loop_body (bare_tile ''shirts/7'') = Inr (Some (record_of [] ''shirts/7'')) \<and>
   status_of (extraction (page_of [bare_tile ''shirts/7'']) 10) = Ok \<and>
   record_of [] ''shirts/7'' \<in> set (records_of (extraction (page_of [bare_tile ''shirts/7'']) 10))"
proof -
  have ne: "''shirts/7'' \<noteq> []" by simp
  have m: "Element (Tag ''li'' [] [] [Element (Tag ''a'' [] [(''href'', ''shirts/7'')] [])])
      \<in> set (slice_to (contents (Tag ''div'' [''results-base''] [] [bare_tile ''shirts/7''])) 10)"
    by (simp add: slice_to_def bare_tile_def)
  from link_only_tile [OF bare_tile_facts(1) disjI1 [OF bare_tile_facts(2)] bare_tile_facts(3-6) ne,
      of "[]" "[]" "page_of [bare_tile ''shirts/7'']"
         "Tag ''div'' [''results-base''] [] [bare_tile ''shirts/7'']" 10]
  have run: "loop_body (bare_tile ''shirts/7'') = Inr (Some (record_of [] ''shirts/7'')) \<and>
     status_of (extraction (page_of [bare_tile ''shirts/7'']) 10) = Ok \<and>
     record_of [] ''shirts/7'' \<in> set (records_of (extraction (page_of [bare_tile ''shirts/7'']) 10))"
    using m bare_tile_page by (simp add: bare_tile_def)
  show ?thesis using bare_tile_facts ne run by blast
qed

section \<open>The link of a record\<close>

lemma extract_fields_link:
  assumes "extract_fields (Element t) = Inr f"
  shows "product_link f =
           (case find_by_name ''a'' t of Some a \<Rightarrow> attrs_get a ''href'' | None \<Rightarrow> Some [])"
  using assms by (auto simp: extract_fields_def Let_def split: sum.splits)

lemma loop_body_anchor:
  assumes "loop_body p = Inr (Some d)"
  shows "\<exists>t a href. p = Element t \<and> find_by_name ''a'' t = Some a \<and>
           attrs_get a ''href'' = Some href \<and> Link d = url @ ''/'' @ href"
proof (cases p)
  case (NavigableString s)
  with assms show ?thesis by (simp add: loop_body_def extract_fields_def)
next
  case (Comment s)
  with assms show ?thesis by (simp add: loop_body_def extract_fields_def)
next
  case (Element t)
  from assms obtain f where f: "extract_fields p = Inr f"
    by (cases "extract_fields p") (simp_all add: loop_body_def)
  with assms have ns: "\<not> skipped f" and mk: "make_product_data f = Inr d"
    by (simp_all add: loop_body_def split: if_splits sum.splits)
  from mk obtain href where href: "product_link f = Some href"
    by (cases "product_link f") (simp_all add: make_product_data_def)
  with ns have ne: "href \<noteq> []" by (simp add: skipped_def)
  from mk href have link: "Link d = url @ ''/'' @ href"
    by (auto simp: make_product_data_def)
  from f Element href have lk:
    "(case find_by_name ''a'' t of Some a \<Rightarrow> attrs_get a ''href'' | None \<Rightarrow> Some []) = Some href"
    using extract_fields_link [of t f] by simp
  with ne obtain a where "find_by_name ''a'' t = Some a" "attrs_get a ''href'' = Some href"
    by (cases "find_by_name ''a'' t") simp_all
  with Element link show ?thesis by blast
qed

lemma for_products_origin_anchor:
  assumes "r \<in> set (snd (for_products ps []))"
  shows "\<exists>t a href. Element t \<in> set ps \<and> loop_body (Element t) = Inr (Some r) \<and>
           find_by_name ''a'' t = Some a \<and> attrs_get a ''href'' = Some href \<and>
           Link r = url @ ''/'' @ href"
proof -
  from for_products_origin [OF assms] obtain p where p: "p \<in> set ps" "loop_body p = Inr (Some r)"
    by (elim bexE)
  from loop_body_anchor [OF p(2)] obtain t a href where
    "p = Element t" "find_by_name ''a'' t = Some a" "attrs_get a ''href'' = Some href"
    "Link r = url @ ''/'' @ href"
    by (elim exE conjE)
  with p show ?thesis by blast
qed

text \<open>
  C8. Every record handed on was made of a child among those taken from the container,
  and its link is the base address, one slash, and the \<^verbatim>\<open>href\<close> of the child's first
  anchor exactly as it stands; the concrete check has an absolute \<^verbatim>\<open>href\<close> and one that
  starts with a slash.
\<close>

theorem link_concatenation:
  assumes "r \<in> set (records_of (extraction soup n))"
  shows "\<exists>c t a href. find_by_class products_container_class soup = Some c \<and>
           Element t \<in> set (slice_to (contents c) n) \<and>
           loop_body (Element t) = Inr (Some r) \<and>
           find_by_name ''a'' t = Some a \<and> attrs_get a ''href'' = Some href \<and>
           Link r = url @ ''/'' @ href"
proof -
  from flow_records [OF assms] obtain rs where rs: "extraction soup n = FallThrough rs"
    and r: "r \<in> set rs" by (elim exE conjE)
  from extraction_FallThrough [OF rs] obtain c
    where c: "find_by_class products_container_class soup = Some c"
      "rs = snd (for_products (slice_to (contents c) n) [])" by (elim exE conjE)
  from r c(2) have "r \<in> set (snd (for_products (slice_to (contents c) n) []))"
    by simp
  from for_products_origin_anchor [OF this] c(1) show ?thesis by blast
qed

lemma absolute_href_records:
  "records_of (extraction (page_of [tile ''Shoe'' ''https://www.myntra.com/shoes/1'',
                                    tile ''Bag'' ''/bags/2'']) 10)
     = [record_of ''Shoe'' ''https://www.myntra.com/shoes/1'', record_of ''Bag'' ''/bags/2'']"
  by code_simp

lemma absolute_href_links:
  "Link (record_of ''Shoe'' ''https://www.myntra.com/shoes/1'')
     = ''https://www.myntra.com/https://www.myntra.com/shoes/1''"
  "Link (record_of ''Bag'' ''/bags/2'') = ''https://www.myntra.com//bags/2''"
  by code_simp+

theorem link_concatenation_witness:
  "record_of ''Bag'' ''/bags/2''
     \<in> set (records_of (extraction (page_of [tile ''Shoe'' ''https://www.myntra.com/shoes/1'',
                                             tile ''Bag'' ''/bags/2'']) 10)) \<and>
   Link (record_of ''Bag'' ''/bags/2'') = ''https://www.myntra.com//bags/2'' \<and>
   Link (record_of ''Shoe'' ''https://www.myntra.com/shoes/1'')
     = ''https://www.myntra.com/https://www.myntra.com/shoes/1'' \<and>
   (\<exists>c t a href.
       find_by_class products_container_class
         (page_of [tile ''Shoe'' ''https://www.myntra.com/shoes/1'', tile ''Bag'' ''/bags/2'']) = Some c \<and>
       Element t \<in> set (slice_to (contents c) 10) \<and>
       loop_body (Element t) = Inr (Some (record_of ''Bag'' ''/bags/2'')) \<and>
       find_by_name ''a'' t = Some a \<and> attrs_get a ''href'' = Some href \<and>
       Link (record_of ''Bag'' ''/bags/2'') = url @ ''/'' @ href)"
proof -
  have m: "record_of ''Bag'' ''/bags/2''
     \<in> set (records_of (extraction (page_of [tile ''Shoe'' ''https://www.myntra.com/shoes/1'',
                                             tile ''Bag'' ''/bags/2'']) 10))"
    by (simp add: absolute_href_records)
  from link_concatenation [OF m] m absolute_href_links show ?thesis by blast
qed

section \<open>Truncation comes before the test\<close>

lemma slice_to_take: "0 \<le> n \<Longrightarrow> slice_to xs n = take (nat n) xs"
  by (simp add: slice_to_def)

text \<open>
  When no pass raises, the loop collects the records of the valid tiles of its list and
  nothing else; there are as many of them as valid tiles.
\<close>

lemma for_products_completes:
  "list_all completes ps \<Longrightarrow> for_products ps acc = (None, acc @ records_from ps)"
proof (induction ps arbitrary: acc)
  case Nil
  then show ?case by simp
next
  case (Cons p ps)
  from Cons.prems have p: "completes p" and ps: "list_all completes ps" by simp_all
  from p obtain res where res: "loop_body p = Inr res"
    by (cases "loop_body p") (simp_all add: completes_def)
  show ?case
  proof (cases res)
    case None
    with res Cons.IH [OF ps, of acc] show ?thesis by simp
  next
    case (Some d)
    with res Cons.IH [OF ps, of "acc @ [d]"] show ?thesis by simp
  qed
qed

lemma records_from_length: "length (records_from ps) = length (filter valid_tile ps)"
  by (induction ps) (simp_all add: valid_tile_def split: sum.splits option.splits)

lemma gap_then_two_facts:
  "find_by_class products_container_class (page_of gap_then_two)
     = Some (Tag ''div'' [''results-base''] [] gap_then_two)"
  "nat 2 \<le> length (filter valid_tile (contents (Tag ''div'' [''results-base''] [] gap_then_two)))"
  "extraction (page_of gap_then_two) 2 = FallThrough [record_of ''A'' ''a'']"
  "take (nat 2) (records_from (contents (Tag ''div'' [''results-base''] [] gap_then_two)))
     = [record_of ''A'' ''a'', record_of ''B'' ''b'']"
  "list_all completes (take (nat 2) (contents (Tag ''div'' [''results-base''] [] gap_then_two)))"
  by code_simp+

text \<open>
  C10. The children are cut to the requested count \<open>n\<close> before any of them is looked at,
  and the test is applied to what is left. When no pass over the first \<open>n\<close> children
  raises, the extraction is \<open>Ok\<close> and hands on exactly the records of the valid tiles
  among the first \<open>n\<close> children, as many as there are valid tiles among them; and two
  pages whose containers agree on their first \<open>n\<close> children give the same extraction.
  So a child that makes no record still uses up one of the \<open>n\<close> places: the container
  with a tile without link followed by two valid tiles, asked for 2, gives the one record
  of the first valid tile, where the first 2 records of all its valid tiles would be two.
  Hence there is a page with at least \<open>n\<close> valid tiles whose extraction is \<open>Ok\<close> with
  fewer than \<open>n\<close> records.
\<close>

theorem truncation_before_filter:
  "(0 < n \<and> find_by_class products_container_class soup = Some c \<and>
    list_all completes (take (nat n) (contents c))
      \<longrightarrow> extraction soup n = FallThrough (records_from (take (nat n) (contents c))) \<and>
          length (records_of (extraction soup n))
            = length (filter valid_tile (take (nat n) (contents c)))) \<and>
   (0 < n \<and> find_by_class products_container_class soup = Some c \<and>
    find_by_class products_container_class soup' = Some c' \<and>
    take (nat n) (contents c) = take (nat n) (contents c')
      \<longrightarrow> extraction soup n = extraction soup' n) \<and>
   (find_by_class products_container_class (page_of gap_then_two)
      = Some (Tag ''div'' [''results-base''] [] gap_then_two) \<and>
    nat 2 \<le> length (filter valid_tile (contents (Tag ''div'' [''results-base''] [] gap_then_two))) \<and>
    extraction (page_of gap_then_two) 2 = FallThrough [record_of ''A'' ''a''] \<and>
    take (nat 2) (records_from (contents (Tag ''div'' [''results-base''] [] gap_then_two)))
      = [record_of ''A'' ''a'', record_of ''B'' ''b'']) \<and>
   (\<exists>soup c n. 0 < n \<and> find_by_class products_container_class soup = Some c \<and>
      nat n \<le> length (filter valid_tile (contents c)) \<and>
      status_of (extraction soup n) = Ok \<and>
      length (records_of (extraction soup n)) < nat n)"
proof (intro conjI impI)
  assume a: "0 < n \<and> find_by_class products_container_class soup = Some c \<and>
    list_all completes (take (nat n) (contents c))"
  then have c: "find_by_class products_container_class soup = Some c" by simp
  from a have "for_products (slice_to (contents c) n) []
      = (None, records_from (take (nat n) (contents c)))"
    using for_products_completes [of "take (nat n) (contents c)" "[]"]
    by (simp add: slice_to_take)
  then show ex: "extraction soup n = FallThrough (records_from (take (nat n) (contents c)))"
    by (simp add: extraction_found [OF c])
  then show "length (records_of (extraction soup n))
            = length (filter valid_tile (take (nat n) (contents c)))"
    by (simp add: records_from_length)
next
  assume a: "0 < n \<and> find_by_class products_container_class soup = Some c \<and>
    find_by_class products_container_class soup' = Some c' \<and>
    take (nat n) (contents c) = take (nat n) (contents c')"
  then have "slice_to (contents c) n = slice_to (contents c') n"
    by (simp add: slice_to_take)
  with a show "extraction soup n = extraction soup' n"
    by (simp add: extraction_found [of soup c] extraction_found [of soup' c'])
next
  have pos: "(0::int) < 2" by simp
  have "status_of (extraction (page_of gap_then_two) 2) = Ok"
    "length (records_of (extraction (page_of gap_then_two) 2)) < nat 2"
    by (simp_all add: gap_then_two_facts(3))
  with pos gap_then_two_facts(1,2)
  show "\<exists>soup c n. 0 < n \<and> find_by_class products_container_class soup = Some c \<and>
      nat n \<le> length (filter valid_tile (contents c)) \<and>
      status_of (extraction soup n) = Ok \<and>
      length (records_of (extraction soup n)) < nat n"
    by blast
qed (rule gap_then_two_facts)+

lemma other_page_facts:
  "find_by_class products_container_class
      (page_of [empty_tile, tile ''A'' ''a'', tile ''C'' ''c'', tile ''D'' ''d''])
     = Some (Tag ''div'' [''results-base''] []
               [empty_tile, tile ''A'' ''a'', tile ''C'' ''c'', tile ''D'' ''d''])"
  "take (nat 2) (contents (Tag ''div'' [''results-base''] [] gap_then_two))
     = take (nat 2) (contents (Tag ''div'' [''results-base''] []
                                [empty_tile, tile ''A'' ''a'', tile ''C'' ''c'', tile ''D'' ''d'']))"
  "records_from (take (nat 2) (contents (Tag ''div'' [''results-base''] [] gap_then_two)))
     = [record_of ''A'' ''a'']"
  "length (filter valid_tile (take (nat 2) (contents (Tag ''div'' [''results-base''] [] gap_then_two))))
     = 1"
  by code_simp+

theorem truncation_before_filter_witness:
  "(0::int) < 2 \<and>
   find_by_class products_container_class (page_of gap_then_two)
     = Some (Tag ''div'' [''results-base''] [] gap_then_two) \<and>
   list_all completes (take (nat 2) (contents (Tag ''div'' [''results-base''] [] gap_then_two))) \<and>
   find_by_class products_container_class
      (page_of [empty_tile, tile ''A'' ''a'', tile ''C'' ''c'', tile ''D'' ''d''])
     = Some (Tag ''div'' [''results-base''] []
               [empty_tile, tile ''A'' ''a'', tile ''C'' ''c'', tile ''D'' ''d'']) \<and>
   take (nat 2) (contents (Tag ''div'' [''results-base''] [] gap_then_two))
     = take (nat 2) (contents (Tag ''div'' [''results-base''] []
                                [empty_tile, tile ''A'' ''a'', tile ''C'' ''c'', tile ''D'' ''d''])) \<and>
   extraction (page_of gap_then_two) 2 = FallThrough [record_of ''A'' ''a''] \<and>
   length (records_of (extraction (page_of gap_then_two) 2)) = 1 \<and>
   extraction (page_of [empty_tile, tile ''A'' ''a'', tile ''C'' ''c'', tile ''D'' ''d'']) 2
     = FallThrough [record_of ''A'' ''a'']"
proof -
  have pos: "(0::int) < 2" by simp
  note inst = truncation_before_filter [of 2 "page_of gap_then_two"
      "Tag ''div'' [''results-base''] [] gap_then_two"
      "page_of [empty_tile, tile ''A'' ''a'', tile ''C'' ''c'', tile ''D'' ''d'']"
      "Tag ''div'' [''results-base''] []
         [empty_tile, tile ''A'' ''a'', tile ''C'' ''c'', tile ''D'' ''d'']"]
  from inst pos gap_then_two_facts(1,5)
  have first: "extraction (page_of gap_then_two) 2
      = FallThrough (records_from (take (nat 2)
          (contents (Tag ''div'' [''results-base''] [] gap_then_two))))"
    and count: "length (records_of (extraction (page_of gap_then_two) 2))
      = length (filter valid_tile (take (nat 2)
          (contents (Tag ''div'' [''results-base''] [] gap_then_two))))"
    by blast+
  from inst pos gap_then_two_facts(1) other_page_facts(1,2)
  have same: "extraction (page_of gap_then_two) 2
      = extraction (page_of [empty_tile, tile ''A'' ''a'', tile ''C'' ''c'', tile ''D'' ''d'']) 2"
    by blast
  from first have a: "extraction (page_of gap_then_two) 2 = FallThrough [record_of ''A'' ''a'']"
    by (simp only: other_page_facts(3))
  from count have b: "length (records_of (extraction (page_of gap_then_two) 2)) = 1"
    by (simp only: other_page_facts(4))
  from same a
  have c: "extraction (page_of [empty_tile, tile ''A'' ''a'', tile ''C'' ''c'', tile ''D'' ''d'']) 2
      = FallThrough [record_of ''A'' ''a'']"
    by simp
  show ?thesis
    using pos gap_then_two_facts(1,5) other_page_facts(1,2) a b c by blast
qed


section \<open>The empty container and the temporary file\<close>

text \<open>
  \<^verbatim>\<open>return 0\<close> is unreachable, and with it the message for no products; on the way to
  the export the file is removed first; on the failing ways out it is kept.
\<close>

lemma extraction_never_ReturnZero: "extraction soup n \<noteq> ReturnZero"
proof (cases "find_by_class products_container_class soup")
  case None
  then show ?thesis by (simp add: extraction_absent)
next
  case (Some c)
  obtain e rs where "for_products (slice_to (contents c) n) [] = (e, rs)"
    by (cases "for_products (slice_to (contents c) n) []")
  then show ?thesis
    by (cases e) (simp_all add: extraction_found [OF Some])
qed

lemma report_never_NoProducts: "report (fst (scrape page fp n w)) \<noteq> NoProducts"
proof (cases page)
  case (Inl e)
  then show ?thesis by (simp add: scrape_def report_def)
next
  case (Inr soup)
  show ?thesis
    using extraction_never_ReturnZero [of soup n]
    by (cases "extraction soup n") (simp_all add: Inr scrape_page report_def)
qed

lemma clean_before_export:
  assumes "extraction soup n = FallThrough rs"
  shows "trace (snd (scrape (Inr soup) fp n w)) = trace w @ [Removed fp, Saved rs]"
    and "files (snd (scrape (Inr soup) fp n w)) fp = None"
  using assms by (simp_all add: scrape_page clean_def save_to_excel_def)

lemma artifact_kept_on_failure:
  assumes "status_of (extraction soup n) = ParseFailure"
  shows "files (snd (scrape (Inr soup) fp n w)) fp = Some soup"
    and "trace (snd (scrape (Inr soup) fp n w)) = trace w"
  using assms by (cases "extraction soup n"; simp add: scrape_page)+

lemma empty_container_find:
  "find_by_class products_container_class (page_of [])
     = Some (Tag ''div'' [''results-base''] [] [])"
  by code_simp

lemma empty_container_extraction: "extraction (page_of []) 10 = FallThrough []"
  by code_simp

text \<open>
  C4. The claim asks for \<open>EmptyContainer\<close> and \<open>NoProducts\<close> without an export when
  the container has no children. The test \<^verbatim>\<open>if not products\<close> is made on an iterator,
  which is always true, so \<^verbatim>\<open>return 0\<close> is never reached: on the page with an empty
  container the function falls through, removes the file, calls \<^verbatim>\<open>save_to_excel\<close>
  with no record and returns \<^verbatim>\<open>True\<close>, and the run is reported as a success.
\<close>

theorem empty_container_is_exported:
  "find_by_class products_container_class (page_of [])
     = Some (Tag ''div'' [''results-base''] [] []) \<and>
   contents (Tag ''div'' [''results-base''] [] []) = [] \<and>
   status_of (extraction (page_of []) 10) = Ok \<and>
   fst (scrape (Inr (page_of [])) temp_path 10 no_world) = PyBool True \<and>
   report (fst (scrape (Inr (page_of [])) temp_path 10 no_world)) = Success \<and>
   trace (snd (scrape (Inr (page_of [])) temp_path 10 no_world))
     = [Removed temp_path, Saved []]"
  using clean_before_export(1) [OF empty_container_extraction, of temp_path no_world]
  by (simp add: empty_container_find empty_container_extraction scrape_page report_def
      no_world_def)

lemma broken_page_extraction: "extraction (page_of [broken_tile]) 10 = ReturnNone"
  by code_simp

text \<open>
  C5. The claim asks that no run leaves the temporary page on disk. On the paths that end
  in a failure \<^verbatim>\<open>clean\<close> is not called: after the run on a page without the container,
  and after the run on a page whose only child raises an attribute error, the file is
  still there.
\<close>

theorem artifact_left_after_failure:
  "report (fst (scrape (Inr page_without_container) temp_path 10 no_world)) = Failure \<and>
   files (snd (scrape (Inr page_without_container) temp_path 10 no_world)) temp_path
     = Some page_without_container \<and>
   report (fst (scrape (Inr (page_of [broken_tile])) temp_path 10 no_world)) = Failure \<and>
   files (snd (scrape (Inr (page_of [broken_tile])) temp_path 10 no_world)) temp_path
     = Some (page_of [broken_tile])"
  by (simp add: scrape_page report_def broken_page_extraction
      extraction_absent [OF page_without_container_find])

end
